theory Spec2Isabelle
  imports Main
begin

section \<open>Python strings and UTF-8\<close>

text \<open>
  A Python \<open>str\<close> is a sequence of Unicode code points; a \<open>bytes\<close> value is a sequence
  of octets. Both are kept as lists of naturals so that the byte length of a character
  (one to four octets) is visible.
\<close>

type_synonym codepoint = nat
type_synonym pystr = "codepoint list"
type_synonym pybytes = "nat list"

datatype py_error = AttributeError | IndexError | RuntimeError | ValueError | ExternalError

text \<open>The literal of an ASCII string, read as code points.\<close>

definition lit :: "string \<Rightarrow> pystr" where
  "lit s = map of_char s"

definition utf8_encode_char :: "codepoint \<Rightarrow> pybytes" where
  "utf8_encode_char c =
     (if c < 128 then [c]
      else if c < 2048 then [192 + c div 64, 128 + c mod 64]
      else if c < 65536 then [224 + c div 4096, 128 + (c div 64) mod 64, 128 + c mod 64]
      else [240 + c div 262144, 128 + (c div 4096) mod 64, 128 + (c div 64) mod 64,
            128 + c mod 64])"

definition utf8_encode :: "pystr \<Rightarrow> pybytes" where
  "utf8_encode s = concat (map utf8_encode_char s)"

text \<open>
  Modelled from the spec: \<open>utf8_byte_length\<close> of \<open>src/frontend/common.py\<close> (not among the
  sources), the number of bytes of the UTF-8 encoding of a string.
\<close>

definition utf8_byte_length :: "pystr \<Rightarrow> nat" where
  "utf8_byte_length s = length (utf8_encode s)"

text \<open>The characters for which Python's \<open>str.isspace\<close> holds.\<close>

definition py_isspace :: "codepoint \<Rightarrow> bool" where
  "py_isspace c \<longleftrightarrow>
     (9 \<le> c \<and> c \<le> 13) \<or> (28 \<le> c \<and> c \<le> 32) \<or> c = 133 \<or> c = 160 \<or> c = 5760 \<or>
     (8192 \<le> c \<and> c \<le> 8202) \<or> c = 8232 \<or> c = 8233 \<or> c = 8239 \<or> c = 8287 \<or> c = 12288"

definition py_strip :: "pystr \<Rightarrow> pystr" where
  "py_strip s = rev (dropWhile py_isspace (rev (dropWhile py_isspace s)))"

definition startswith :: "pystr \<Rightarrow> pystr \<Rightarrow> bool" where
  "startswith s p \<longleftrightarrow> take (length p) s = p"

definition endswith :: "pystr \<Rightarrow> pystr \<Rightarrow> bool" where
  "endswith s p \<longleftrightarrow> length p \<le> length s \<and> drop (length s - length p) s = p"

text \<open>\<open>s[i:j]\<close> for non-negative \<open>i\<close> and \<open>j\<close>.\<close>

definition py_slice :: "'a list \<Rightarrow> nat \<Rightarrow> nat \<Rightarrow> 'a list" where
  "py_slice s i j = drop i (take j s)"

text \<open>\<open>s.split()\<close>: the maximal runs of non-whitespace characters, in order.\<close>

fun py_split_loop :: "pystr \<Rightarrow> pystr \<Rightarrow> pystr list" where
  "py_split_loop cur [] = (if cur = [] then [] else [cur])"
| "py_split_loop cur (c # cs) =
     (if py_isspace c then (if cur = [] then py_split_loop [] cs else cur # py_split_loop [] cs)
      else py_split_loop (cur @ [c]) cs)"

definition py_split :: "pystr \<Rightarrow> pystr list" where
  "py_split s = py_split_loop [] s"

section \<open>Words\<close>

text \<open>
  Modelled from the spec: \<open>Word\<close>, its SSML properties and \<open>WORD_SENTENCE_SEPARATOR\<close> of
  \<open>src/frontend/words.py\<close> (not among the sources). A default-initialised Word is the
  sentence separator; \<open>is_multi\<close> is kept as the flag the spec describes.
\<close>

type_synonym PhoneSeq = "pystr list"
type_synonym LangID = pystr

datatype Alphabet = IPA | XSAMPA | XSAMPA_SYLL_STRESS

record SSMLProps =
  tag_type :: pystr
  is_multi :: bool
  rate :: pystr
  pitch :: pystr
  volume :: pystr

record Word =
  original_symbol :: pystr
  symbol :: pystr
  phone_sequence :: PhoneSeq
  start_byte_offset :: nat
  end_byte_offset :: nat
  ssml_props :: "SSMLProps option"

definition Word_default :: Word where
  "Word_default = \<lparr>original_symbol = [], symbol = [], phone_sequence = [],
     start_byte_offset = 0, end_byte_offset = 0, ssml_props = None\<rparr>"

definition WORD_SENTENCE_SEPARATOR :: Word where
  "WORD_SENTENCE_SEPARATOR = Word_default"

definition is_from_ssml :: "Word \<Rightarrow> bool" where
  "is_from_ssml w \<longleftrightarrow> ssml_props w \<noteq> None"

section \<open>Plain-text tokenizer (normalization.py)\<close>

text \<open>
  The tokens of the external \<open>tokenizer\<close> package, reduced to the attributes the code
  reads: the kind, the original text (with its leading whitespace) and the positions in
  the original of the token's characters.
\<close>

datatype TOK = S_BEGIN | S_END | WORD_TOK | PUNCTUATION_TOK | UNKNOWN_TOK

record Tok =
  kind :: TOK
  original :: "pystr option"
  origin_spans :: "nat list option"

text \<open>
  \<open>add_token_offsets\<close>: the loop, with \<open>n_bytes_consumed\<close> as its accumulator. A
  sentence end is kept with offsets \<open>(0, 0)\<close>; a token with no spans or no original text
  is skipped and consumes nothing.
\<close>

fun add_token_offsets_loop :: "nat \<Rightarrow> Tok list \<Rightarrow> (Tok \<times> nat \<times> nat) list" where
  "add_token_offsets_loop n [] = []"
| "add_token_offsets_loop n (tok # toks) =
     (if kind tok = S_END then (tok, 0, 0) # add_token_offsets_loop n toks
      else (case (origin_spans tok, original tok) of
              (Some (s0 # ss), Some (c # cs)) \<Rightarrow>
                (let orig = c # cs;
                     start_offset = n + utf8_byte_length (take s0 orig);
                     end_offset = start_offset
                        + utf8_byte_length (py_slice orig s0 (last (s0 # ss) + 1))
                 in (tok, start_offset, end_offset)
                      # add_token_offsets_loop (n + utf8_byte_length orig) toks)
            | _ \<Rightarrow> add_token_offsets_loop n toks))"

definition add_token_offsets :: "Tok list \<Rightarrow> (Tok \<times> nat \<times> nat) list" where
  "add_token_offsets tokens = add_token_offsets_loop 0 tokens"

definition emit :: "'a \<Rightarrow> py_error + 'a list \<Rightarrow> py_error + 'a list" where
  "emit w r = (case r of Inl e \<Rightarrow> Inl e | Inr ws \<Rightarrow> Inr (w # ws))"

definition plain_word :: "pystr \<Rightarrow> nat \<Rightarrow> nat \<Rightarrow> Word" where
  "plain_word w s e = \<lparr>original_symbol = w, symbol = w, phone_sequence = [],
     start_byte_offset = s, end_byte_offset = e, ssml_props = None\<rparr>"

text \<open>
  The loop of \<open>_tokenize\<close> over the tokens with offsets; its state is
  \<open>current_word_segments\<close> and \<open>phoneme_str_open\<close>. \<open>tok.original.strip()\<close> on a token
  without original text raises AttributeError.
\<close>

fun tokenize_loop :: "pystr list \<Rightarrow> bool \<Rightarrow> (Tok \<times> nat \<times> nat) list \<Rightarrow> py_error + Word list" where
  "tokenize_loop segs opn [] = Inr []"
| "tokenize_loop segs opn ((tok, s, e) # rest) =
     (if kind tok = S_END then tokenize_loop segs opn rest
      else (case original tok of
              None \<Rightarrow> Inl AttributeError
            | Some orig \<Rightarrow>
                (let w = py_strip orig in
                 if opn then
                   (if endswith w (lit ''}'')
                    then emit (plain_word (concat (segs @ [w])) s e) (tokenize_loop [] False rest)
                    else tokenize_loop (segs @ [w]) True rest)
                 else if startswith w (lit ''{'') \<and> \<not> endswith w (lit ''}'')
                   then tokenize_loop (segs @ [w]) True rest
                   else emit (plain_word w s e) (tokenize_loop segs False rest))))"

text \<open>
  \<open>_tokenize\<close>, applied to the token list that \<open>tokenizer.tokenize_without_annotation\<close>
  returned for the text.
\<close>

definition tokenize :: "Tok list \<Rightarrow> py_error + Word list" where
  "tokenize tokens = tokenize_loop [] False (add_token_offsets tokens)"


text \<open>
  The scanner state (\<open>current_word_segments\<close>, \<open>phoneme_str_open\<close>) that the loop of
  \<open>_tokenize\<close> has reached after the given tokens.
\<close>

fun tokenize_state :: "pystr list \<Rightarrow> bool \<Rightarrow> (Tok \<times> nat \<times> nat) list \<Rightarrow> pystr list \<times> bool" where
  "tokenize_state segs opn [] = (segs, opn)"
| "tokenize_state segs opn ((tok, s, e) # rest) =
     (if kind tok = S_END then tokenize_state segs opn rest
      else (case original tok of
              None \<Rightarrow> (segs, opn)
            | Some orig \<Rightarrow>
                (let w = py_strip orig in
                 if opn then
                   (if endswith w (lit ''}'') then tokenize_state [] False rest
                    else tokenize_state (segs @ [w]) True rest)
                 else if startswith w (lit ''{'') \<and> \<not> endswith w (lit ''}'')
                   then tokenize_state (segs @ [w]) True rest
                   else tokenize_state segs False rest)))"

text \<open>The original text of a token, empty when the token has none.\<close>

definition tok_text :: "Tok \<Rightarrow> pystr" where
  "tok_text t = (case original t of None \<Rightarrow> [] | Some orig \<Rightarrow> orig)"

text \<open>Tokens for concrete inputs.\<close>

definition mk_tok :: "TOK \<Rightarrow> string \<Rightarrow> nat list \<Rightarrow> Tok" where
  "mk_tok k s sp = \<lparr>kind = k, original = Some (lit s), origin_spans = Some sp\<rparr>"

definition sentence_begin :: Tok where
  "sentence_begin = \<lparr>kind = S_BEGIN, original = None, origin_spans = None\<rparr>"

definition sentence_end :: Tok where
  "sentence_end = \<lparr>kind = S_END, original = None, origin_spans = None\<rparr>"

section \<open>Grapheme-to-phoneme translation (grapheme\_to\_phoneme.py)\<close>

type_synonym translator = "pystr \<Rightarrow> LangID \<Rightarrow> Alphabet \<Rightarrow> PhoneSeq"

subsection \<open>translate\_words\<close>

definition ssml_tag_skiplist :: "pystr list" where
  "ssml_tag_skiplist = [lit ''phoneme'']"

text \<open>
  The character class built from \<open>string.punctuation\<close> without the brace and bracket
  characters. What is left of \<open>string.punctuation\<close> contains a backslash followed by a
  caret; inside the class the backslash escapes the caret, so the backslash itself is
  not a member. The members are the code points 33 to 47, 58 to 64, and the caret,
  underscore, backquote, bar and tilde.
\<close>

definition g2p_punctuation :: "codepoint \<Rightarrow> bool" where
  "g2p_punctuation c \<longleftrightarrow>
     (33 \<le> c \<and> c \<le> 47) \<or> (58 \<le> c \<and> c \<le> 64) \<or> c = 94 \<or> c = 95 \<or> c = 96 \<or> c = 124 \<or> c = 126"

text \<open>\<open>re.sub\<close> putting a space on each side of every punctuation character.\<close>

definition space_out_punctuation :: "pystr \<Rightarrow> pystr" where
  "space_out_punctuation s = concat (map (\<lambda>c. if g2p_punctuation c then [32, c, 32] else [c]) s)"

definition should_translate :: "Word \<Rightarrow> bool" where
  "should_translate word \<longleftrightarrow>
     (\<not> is_from_ssml word \<and> word \<noteq> WORD_SENTENCE_SEPARATOR)
     \<or> (is_from_ssml word
        \<and> (case ssml_props word of None \<Rightarrow> False | Some p \<Rightarrow> tag_type p \<notin> set ssml_tag_skiplist)
        \<and> word \<noteq> WORD_SENTENCE_SEPARATOR)"

text \<open>The Word that one round of the loop yields for an input Word.\<close>

definition yielded_word :: "translator \<Rightarrow> LangID \<Rightarrow> Alphabet \<Rightarrow> Word \<Rightarrow> Word" where
  "yielded_word translate lang alphabet word =
     (if should_translate word
      then word\<lparr>phone_sequence :=
             concat (map (\<lambda>g2p_w. translate g2p_w lang alphabet)
                         (py_split (space_out_punctuation (symbol word))))\<rparr>
      else word)"

text \<open>
  The syllable marker that follows a spoken Word in the stress alphabet. \<open>is_spoken\<close>
  belongs to \<open>words.py\<close> and is a parameter.
\<close>

definition syllable_marker_after :: "(Word \<Rightarrow> bool) \<Rightarrow> Alphabet \<Rightarrow> Word \<Rightarrow> Word list" where
  "syllable_marker_after is_spoken alphabet word =
     (if is_spoken word \<and> alphabet = XSAMPA_SYLL_STRESS
      then [Word_default\<lparr>phone_sequence := [lit ''.'']\<rparr>] else [])"

fun translate_words :: "translator \<Rightarrow> (Word \<Rightarrow> bool) \<Rightarrow> Word list \<Rightarrow> LangID \<Rightarrow> Alphabet \<Rightarrow> Word list" where
  "translate_words translate is_spoken [] lang alphabet = []"
| "translate_words translate is_spoken (word # words) lang alphabet =
     (let word' = yielded_word translate lang alphabet word
      in word' # syllable_marker_after is_spoken alphabet word'
           @ translate_words translate is_spoken words lang alphabet)"

text \<open>
  The condition of the specification: not the sentence separator, and either not from
  markup or with a tag outside the skip-list, which holds \<open>phoneme\<close> only.
\<close>

definition tag_in_skiplist :: "Word \<Rightarrow> bool" where
  "tag_in_skiplist word =
     (case ssml_props word of None \<Rightarrow> False | Some p \<Rightarrow> tag_type p = lit ''phoneme'')"

definition spec_translate_condition :: "Word \<Rightarrow> bool" where
  "spec_translate_condition word \<longleftrightarrow>
     word \<noteq> WORD_SENTENCE_SEPARATOR \<and> (\<not> is_from_ssml word \<or> \<not> tag_in_skiplist word)"

subsection \<open>ComposedTranslator\<close>

definition ComposedTranslator_init :: "translator list \<Rightarrow> py_error + translator list" where
  "ComposedTranslator_init translators =
     (if length translators < 1 then Inl ValueError else Inr translators)"

fun composed_translate_loop :: "PhoneSeq \<Rightarrow> translator list \<Rightarrow> pystr \<Rightarrow> LangID \<Rightarrow> Alphabet \<Rightarrow> PhoneSeq" where
  "composed_translate_loop phone [] text lang alphabet = phone"
| "composed_translate_loop phone (t # ts) text lang alphabet =
     (let phone' = t text lang alphabet
      in if phone' \<noteq> [] then phone' else composed_translate_loop phone' ts text lang alphabet)"

definition composed_translate :: "translator list \<Rightarrow> translator" where
  "composed_translate translators text lang alphabet =
     composed_translate_loop [] translators text lang alphabet"

subsection \<open>LexiconGraphemeToPhonemeTranslator\<close>

text \<open>
  Modelled from the spec: the lexicon of \<open>src/frontend/lexicon.py\<close> (not among the
  sources), a mapping from word forms to phone sequences; \<open>get\<close> with a default. The
  guard \<open>if lexicon:\<close> is passed by every lexicon object; were an empty lexicon falsy,
  both lookups would return the default and the result would be the same.
\<close>

type_synonym lexicon = "pystr \<rightharpoonup> PhoneSeq"

definition lexicon_get :: "lexicon \<Rightarrow> pystr \<Rightarrow> PhoneSeq \<Rightarrow> PhoneSeq" where
  "lexicon_get lx w dflt = (case lx w of None \<Rightarrow> dflt | Some phones \<Rightarrow> phones)"

text \<open>
  The alphabet converters of \<open>src/frontend/phonemes.py\<close> (not among the sources) and
  Python's \<open>str.lower\<close> are parameters.
\<close>

record converters =
  convert_ipa_to_xsampa :: "PhoneSeq \<Rightarrow> PhoneSeq"
  convert_xsampa_to_ipa :: "PhoneSeq \<Rightarrow> PhoneSeq"
  convert_xsampa_to_xsampa_with_stress :: "PhoneSeq \<Rightarrow> pystr \<Rightarrow> PhoneSeq"
  lower :: "pystr \<Rightarrow> pystr"

definition lexicon_translate :: "converters \<Rightarrow> lexicon \<Rightarrow> translator" where
  "lexicon_translate cv lx w lang alphabet =
     (let w_lower = lower cv w;
          phones = lexicon_get lx w [];
          phones = (if phones = [] then lexicon_get lx w_lower [] else phones)
      in if alphabet \<noteq> IPA then
           (let phones = convert_ipa_to_xsampa cv phones
            in if alphabet = XSAMPA_SYLL_STRESS
               then convert_xsampa_to_xsampa_with_stress cv phones w else phones)
         else phones)"

text \<open>
  The lookup of the specification: the word verbatim, then its lowercase form, the
  empty sequence when both miss.
\<close>

definition spec_lexicon_lookup :: "converters \<Rightarrow> lexicon \<Rightarrow> pystr \<Rightarrow> PhoneSeq" where
  "spec_lexicon_lookup cv lx w =
     (case lx w of
        Some (p # ps) \<Rightarrow> p # ps
      | _ \<Rightarrow> (case lx (lower cv w) of Some phones \<Rightarrow> phones | None \<Rightarrow> []))"

text \<open>Converters for concrete inputs: ASCII lowercase, phones left as they are.\<close>

definition ascii_lower :: "pystr \<Rightarrow> pystr" where
  "ascii_lower s = map (\<lambda>c. if 65 \<le> c \<and> c \<le> 90 then c + 32 else c) s"

definition plain_converters :: converters where
  "plain_converters = \<lparr>convert_ipa_to_xsampa = (\<lambda>ps. ps), convert_xsampa_to_ipa = (\<lambda>ps. ps),
     convert_xsampa_to_xsampa_with_stress = (\<lambda>ps w. ps), lower = ascii_lower\<rparr>"

subsection \<open>IceG2PTranslator\<close>

text \<open>
  The transcriber of the external \<open>ice_g2p\<close> package: its settings, of which
  \<open>syllab_symbol\<close> is the one the translator toggles, and its \<open>transcribe\<close> method, a
  parameter that reads the settings, may change them and may raise.
\<close>

record Transcriber =
  use_dict :: bool
  syllab_symbol :: pystr
  stress_label :: bool

type_synonym transcribe_fn = "Transcriber \<Rightarrow> pystr \<Rightarrow> (py_error + pystr) \<times> Transcriber"

definition IceG2PTranslator_init :: Transcriber where
  "IceG2PTranslator_init = \<lparr>use_dict = True, syllab_symbol = lit ''.'', stress_label = True\<rparr>"

definition remove_punctuation :: "pystr \<Rightarrow> pystr" where
  "remove_punctuation text = filter (\<lambda>c. \<not> g2p_punctuation c) text"

definition ice_phone_seq :: "converters \<Rightarrow> Alphabet \<Rightarrow> pystr \<Rightarrow> PhoneSeq" where
  "ice_phone_seq cv alphabet out =
     (let phone_seq = py_split out
      in if alphabet = IPA then convert_xsampa_to_ipa cv phone_seq else phone_seq)"

text \<open>
  \<open>IceG2PTranslator._translate\<close>, with the transcriber as state. An exception raised
  by \<open>transcribe\<close> leaves the function at the call.
\<close>

definition ice_translate ::
  "transcribe_fn \<Rightarrow> converters \<Rightarrow> Transcriber \<Rightarrow> pystr \<Rightarrow> LangID \<Rightarrow> Alphabet
     \<Rightarrow> (py_error + PhoneSeq) \<times> Transcriber" where
  "ice_translate transcribe cv tr text0 lang alphabet =
     (let text = remove_punctuation text0
      in if py_strip text = [] then (Inr [], tr)
         else if alphabet \<noteq> XSAMPA_SYLL_STRESS then
           (let saved = syllab_symbol tr;
                tr1 = tr\<lparr>syllab_symbol := []\<rparr>
            in case transcribe tr1 (lower cv text) of
                 (Inl err, tr2) \<Rightarrow> (Inl err, tr2)
               | (Inr out, tr2) \<Rightarrow>
                   (Inr (ice_phone_seq cv alphabet out), tr2\<lparr>syllab_symbol := saved\<rparr>))
         else
           (case transcribe tr (lower cv text) of
              (Inl err, tr2) \<Rightarrow> (Inl err, tr2)
            | (Inr out, tr2) \<Rightarrow> (Inr (ice_phone_seq cv alphabet out), tr2)))"

text \<open>Two transcribers for concrete inputs: one that echoes its input, one that raises.\<close>

definition echo_transcribe :: transcribe_fn where
  "echo_transcribe tr text = (Inr text, tr)"

definition failing_transcribe :: transcribe_fn where
  "failing_transcribe tr text = (Inl ExternalError, tr)"


section \<open>Remote normalization (GrammatekNormalizer.normalize)\<close>

text \<open>
  The state carried through the iteration: \<open>n_bytes_consumed\<close>, the remaining \<open>text_view\<close> and the
  cursor \<open>p_idx\<close> into the Words that the SSML parser returned.
\<close>

record norm_state =
  n_bytes_consumed :: nat
  text_view :: pystr
  p_idx :: nat

text \<open>
  The loop over one sentence's (original, normalized) pairs. The list argument is what
  is left in \<open>sent_iter\<close>. The generator's result is the Words it has yielded and either
  the state at exhaustion or the exception that ended it: \<open>parsed_text[p_idx]\<close> out of
  range raises IndexError, \<open>ssml_props\<close> absent raises AttributeError, and
  \<open>next(islice(sent_iter, skip_length))\<close> takes one element from \<open>sent_iter\<close>, raising
  StopIteration (a RuntimeError inside a generator) when \<open>skip_length\<close> is zero or the
  iterator is exhausted. \<open>consume_whitespace\<close> (\<open>common.py\<close>) and \<open>is_spoken\<close>
  (\<open>words.py\<close>) are parameters.
\<close>

fun normalize_sentence ::
  "(pystr \<Rightarrow> bool \<Rightarrow> nat \<times> nat) \<Rightarrow> (Word \<Rightarrow> bool) \<Rightarrow> bool \<Rightarrow> Word list \<Rightarrow> norm_state
     \<Rightarrow> (pystr \<times> pystr) list \<Rightarrow> Word list \<times> (py_error + norm_state)" where
  "normalize_sentence consume_whitespace is_spoken text_is_ssml parsed_text st [] = ([], Inr st)"
| "normalize_sentence consume_whitespace is_spoken text_is_ssml parsed_text st
       ((original0, normalized) # sent_iter) =
     (let spoken_ssml = (text_is_ssml \<and> is_spoken (Word_default\<lparr>original_symbol := original0\<rparr>));
          (n_chars_whitespace, n_bytes_whitespace) = consume_whitespace (text_view st) text_is_ssml;
          n = n_bytes_consumed st + n_bytes_whitespace
      in if spoken_ssml \<and> length parsed_text \<le> p_idx st then ([], Inl IndexError)
         else if spoken_ssml \<and> ssml_props (parsed_text ! p_idx st) = None then ([], Inl AttributeError)
         else
          (let phoneme_multi = (spoken_ssml \<and>
                 (case ssml_props (parsed_text ! p_idx st) of
                    None \<Rightarrow> False
                  | Some p \<Rightarrow> tag_type p = lit ''phoneme'' \<and> is_multi p));
               original1 = (if phoneme_multi then original_symbol (parsed_text ! p_idx st)
                            else original0);
               token_byte_len = utf8_byte_length original1;
               word = \<lparr>original_symbol = original1, symbol = normalized,
                       phone_sequence = (if spoken_ssml then phone_sequence (parsed_text ! p_idx st)
                                         else []),
                       start_byte_offset = n, end_byte_offset = n + token_byte_len,
                       ssml_props = None\<rparr>;
               st' = \<lparr>n_bytes_consumed = n + token_byte_len,
                      text_view = drop (n_chars_whitespace + length original1) (text_view st),
                      p_idx = (if spoken_ssml then p_idx st + 1 else p_idx st)\<rparr>
           in if phoneme_multi then
                (if length (py_split original1) = 0 then ([word], Inl RuntimeError)
                 else (case sent_iter of
                         [] \<Rightarrow> ([word], Inl RuntimeError)
                       | skipped # sent_iter' \<Rightarrow>
                           (case normalize_sentence consume_whitespace is_spoken text_is_ssml
                                   parsed_text st' sent_iter' of
                              (ws, r) \<Rightarrow> (word # ws, r))))
              else (case normalize_sentence consume_whitespace is_spoken text_is_ssml
                            parsed_text st' sent_iter of
                      (ws, r) \<Rightarrow> (word # ws, r))))"

fun normalize_sentences ::
  "(pystr \<Rightarrow> bool \<Rightarrow> nat \<times> nat) \<Rightarrow> (Word \<Rightarrow> bool) \<Rightarrow> bool \<Rightarrow> Word list \<Rightarrow> norm_state
     \<Rightarrow> (pystr \<times> pystr) list list \<Rightarrow> Word list \<times> (py_error + norm_state)" where
  "normalize_sentences consume_whitespace is_spoken text_is_ssml parsed_text st [] = ([], Inr st)"
| "normalize_sentences consume_whitespace is_spoken text_is_ssml parsed_text st (sent # sents) =
     (case normalize_sentence consume_whitespace is_spoken text_is_ssml parsed_text st sent of
        (ws, Inl err) \<Rightarrow> (ws, Inl err)
      | (ws, Inr st') \<Rightarrow>
          (case normalize_sentences consume_whitespace is_spoken text_is_ssml parsed_text st' sents of
             (ws', r) \<Rightarrow> (ws @ WORD_SENTENCE_SEPARATOR # ws', r)))"

text \<open>
  \<open>GrammatekNormalizer.normalize\<close>, given what its collaborators returned: the plain
  text and the Words of \<open>parse_ssml\<close> (used in SSML mode only) and the sentences of the
  normalization service.
\<close>

definition grammatek_normalize ::
  "(pystr \<Rightarrow> bool \<Rightarrow> nat \<times> nat) \<Rightarrow> (Word \<Rightarrow> bool) \<Rightarrow> pystr \<Rightarrow> bool \<Rightarrow> pystr \<Rightarrow> Word list
     \<Rightarrow> (pystr \<times> pystr) list list \<Rightarrow> Word list \<times> (py_error + norm_state)" where
  "grammatek_normalize consume_whitespace is_spoken text0 text_is_ssml plain_text parsed_text
       sentences_with_pairs =
     normalize_sentences consume_whitespace is_spoken text_is_ssml parsed_text
       \<lparr>n_bytes_consumed = 0, text_view = (if text_is_ssml then text0 else plain_text), p_idx = 0\<rparr>
       sentences_with_pairs"

text \<open>
  Modelled from the spec: \<open>consume_whitespace\<close> of \<open>src/frontend/common.py\<close> and
  \<open>Word.is_spoken\<close> of \<open>src/frontend/words.py\<close> (not among the sources), for concrete
  inputs: the numbers of characters and of bytes of the leading whitespace, and a Word
  is spoken when its original text has a character that is not punctuation.
\<close>

definition leading_whitespace :: "pystr \<Rightarrow> bool \<Rightarrow> nat \<times> nat" where
  "leading_whitespace text is_ssml =
     (length (takeWhile py_isspace text), utf8_byte_length (takeWhile py_isspace text))"

definition has_letters :: "Word \<Rightarrow> bool" where
  "has_letters w \<longleftrightarrow> filter (\<lambda>c. \<not> g2p_punctuation c \<and> \<not> py_isspace c) (original_symbol w) \<noteq> []"

definition phoneme_word :: "string \<Rightarrow> bool \<Rightarrow> PhoneSeq \<Rightarrow> Word" where
  "phoneme_word s multi phones =
     \<lparr>original_symbol = lit s, symbol = lit s, phone_sequence = phones,
      start_byte_offset = 0, end_byte_offset = 0,
      ssml_props = Some \<lparr>tag_type = lit ''phoneme'', is_multi = multi, rate = [], pitch = [],
                         volume = []\<rparr>\<rparr>"

definition speak_word :: "string \<Rightarrow> Word" where
  "speak_word s =
     \<lparr>original_symbol = lit s, symbol = lit s, phone_sequence = [],
      start_byte_offset = 0, end_byte_offset = 0,
      ssml_props = Some \<lparr>tag_type = lit ''speak'', is_multi = False, rate = [], pitch = [],
                         volume = []\<rparr>\<rparr>"


section \<open>Translators, a lexicon and service output for concrete inputs\<close>

definition spell :: translator where
  "spell text lang alphabet = map (\<lambda>c. [c]) text"

definition silent :: translator where
  "silent text lang alphabet = []"

definition demo_lexicon :: lexicon where
  "demo_lexicon = [lit ''word'' \<mapsto> [lit ''w'', lit ''o'', lit ''r'', lit ''d'']]"

definition abc_parsed :: "Word list" where
  "abc_parsed = [phoneme_word ''a b c'' True [lit ''x'', lit ''y'', lit ''z''], speak_word ''d'']"

definition abc_pairs :: "(pystr \<times> pystr) list" where
  "abc_pairs = [(lit ''a'', lit ''a''), (lit ''b'', lit ''b''), (lit ''c'', lit ''c''),
                (lit ''d'', lit ''d'')]"

section \<open>Properties of token and Word streams\<close>

text \<open>
  The byte offsets of a Word stream are non-decreasing from a lower bound: every Word
  starts at or after the end of the Word before it and ends at or after its own start.
\<close>

fun offsets_nondecreasing :: "nat \<Rightarrow> Word list \<Rightarrow> bool" where
  "offsets_nondecreasing lo [] = True"
| "offsets_nondecreasing lo (w # ws) =
     (lo \<le> start_byte_offset w \<and> start_byte_offset w \<le> end_byte_offset w
      \<and> offsets_nondecreasing (end_byte_offset w) ws)"

text \<open>The same for the tokens with offsets, sentence ends apart.\<close>

fun entries_nondecreasing :: "nat \<Rightarrow> (Tok \<times> nat \<times> nat) list \<Rightarrow> bool" where
  "entries_nondecreasing lo [] = True"
| "entries_nondecreasing lo ((tok, s, e) # rest) =
     (if kind tok = S_END then entries_nondecreasing lo rest
      else lo \<le> s \<and> s \<le> e \<and> entries_nondecreasing e rest)"

text \<open>A token that sends the scanner inside braces.\<close>

definition opens_brace :: "Tok \<Rightarrow> bool" where
  "opens_brace t \<longleftrightarrow> startswith (py_strip (tok_text t)) (lit ''{'')
     \<and> \<not> endswith (py_strip (tok_text t)) (lit ''}'')"

text \<open>
  What the offsets rely on in the tokenizer's output: a token that \<open>add_token_offsets\<close>
  skips has no original text, and the span of any other token is its original text
  without the surrounding whitespace.
\<close>

definition token_aligned :: "Tok \<Rightarrow> bool" where
  "token_aligned t =
     (case origin_spans t of
        Some (s0 # ss) \<Rightarrow>
          (if kind t = S_END then tok_text t = []
           else py_slice (tok_text t) s0 (last (s0 # ss) + 1) = py_strip (tok_text t))
      | _ \<Rightarrow> tok_text t = [])"


section \<open>Evaluation rules for concrete inputs\<close>

lemmas tok_eval = mk_tok_def sentence_begin_def sentence_end_def tokenize_def add_token_offsets_def
  lit_def utf8_byte_length_def utf8_encode_def utf8_encode_char_def py_slice_def py_strip_def
  py_isspace_def startswith_def endswith_def emit_def plain_word_def Let_def tok_text_def

lemmas str_eval = lit_def py_split_def py_isspace_def space_out_punctuation_def g2p_punctuation_def

lemmas word_eval = plain_word_def phoneme_word_def speak_word_def WORD_SENTENCE_SEPARATOR_def
  Word_default_def should_translate_def is_from_ssml_def ssml_tag_skiplist_def yielded_word_def
  syllable_marker_after_def has_letters_def

lemmas ice_eval = ice_translate_def remove_punctuation_def g2p_punctuation_def py_strip_def
  py_isspace_def lit_def plain_converters_def ascii_lower_def echo_transcribe_def
  failing_transcribe_def IceG2PTranslator_init_def ice_phone_seq_def py_split_def Let_def

lemmas norm_eval = grammatek_normalize_def abc_parsed_def abc_pairs_def leading_whitespace_def
  has_letters_def phoneme_word_def speak_word_def Word_default_def lit_def py_isspace_def
  g2p_punctuation_def py_split_def utf8_byte_length_def utf8_encode_def utf8_encode_char_def
  Let_def WORD_SENTENCE_SEPARATOR_def

section \<open>The tokenizer: offsets, sentence ends and braces\<close>

lemma utf8_encode_char_ne: "utf8_encode_char c \<noteq> []"
  by (simp add: utf8_encode_char_def)

lemma utf8_byte_length_pos: "s \<noteq> [] \<Longrightarrow> 0 < utf8_byte_length s"
  by (cases s) (simp_all add: utf8_byte_length_def utf8_encode_def utf8_encode_char_ne)

lemma first_entry_end_pos:
  "0 < n + utf8_byte_length (take s0 (c # cs)) + utf8_byte_length (py_slice (c # cs) s0 (Suc l))"
proof (cases s0)
  case 0
  then show ?thesis by (simp add: py_slice_def utf8_byte_length_pos)
next
  case (Suc k)
  then show ?thesis by (simp add: utf8_byte_length_pos)
qed

lemma offsets_entry:
  "(tok, s, e) \<in> set (add_token_offsets_loop n toks) \<Longrightarrow> kind tok \<noteq> S_END \<Longrightarrow>
     (\<exists>orig. original tok = Some orig \<and> orig \<noteq> []) \<and> 0 < e"
proof (induction toks arbitrary: n)
  case Nil
  then show ?case by simp
next
  case (Cons t toks)
  show ?case
  proof (cases "kind t = S_END")
    case True
    with Cons show ?thesis by auto
  next
    case False
    show ?thesis
    proof (cases "origin_spans t")
      case None
      with False Cons show ?thesis by auto
    next
      case (Some sp)
      show ?thesis
      proof (cases sp)
        case Nil
        with Some False Cons show ?thesis by auto
      next
        case sp: (Cons s0 ss)
        show ?thesis
        proof (cases "original t")
          case None
          with sp Some False Cons show ?thesis by auto
        next
          case orig: (Some orig)
          show ?thesis
          proof (cases orig)
            case Nil
            with orig sp Some False Cons show ?thesis by auto
          next
            case oc: (Cons c cs)
            from Cons.prems(1) oc orig sp Some False
            consider "tok = t \<and> e = n + utf8_byte_length (take s0 (c # cs))
                      + utf8_byte_length (py_slice (c # cs) s0 (Suc (last (s0 # ss))))"
              | "(tok, s, e) \<in> set (add_token_offsets_loop (n + utf8_byte_length (c # cs)) toks)"
              by (auto simp: Let_def)
            then show ?thesis
            proof cases
              case 1
              then show ?thesis using oc orig first_entry_end_pos by auto
            next
              case 2
              then show ?thesis using Cons.IH Cons.prems(2) by blast
            qed
          qed
        qed
      qed
    qed
  qed
qed

lemma tokenize_loop_returns:
  "(\<And>tok s e. (tok, s, e) \<in> set offs \<Longrightarrow> kind tok \<noteq> S_END \<Longrightarrow> original tok \<noteq> None) \<Longrightarrow>
   \<exists>ws. tokenize_loop segs opn offs = Inr ws"
proof (induction offs arbitrary: segs opn)
  case Nil
  then show ?case by simp
next
  case (Cons x offs)
  obtain tok s e where x: "x = (tok, s, e)" by (cases x)
  have rest: "\<And>segs opn. \<exists>ws. tokenize_loop segs opn offs = Inr ws"
    using Cons.IH Cons.prems by (meson list.set_intros(2))
  show ?case
  proof (cases "kind tok = S_END")
    case True
    then show ?thesis using x rest by simp
  next
    case False
    then obtain orig where o: "original tok = Some orig"
      using Cons.prems[of tok s e] x by auto
    obtain a where a: "tokenize_loop [] False offs = Inr a" using rest by blast
    obtain b where b: "tokenize_loop segs False offs = Inr b" using rest by blast
    show ?thesis using x False o a b rest
      by (simp add: Let_def emit_def)
  qed
qed





lemma offsets_loop_append:
  "\<exists>m. add_token_offsets_loop n (xs @ ys)
     = add_token_offsets_loop n xs @ add_token_offsets_loop m ys"
proof (induction xs arbitrary: n)
  case Nil
  show ?case by (rule exI[of _ n]) simp
next
  case (Cons t xs)
  obtain m1 where m1: "add_token_offsets_loop n (xs @ ys)
     = add_token_offsets_loop n xs @ add_token_offsets_loop m1 ys"
    using Cons.IH by blast
  obtain m2 where m2: "add_token_offsets_loop (n + utf8_byte_length (the (original t))) (xs @ ys)
     = add_token_offsets_loop (n + utf8_byte_length (the (original t))) xs @ add_token_offsets_loop m2 ys"
    using Cons.IH by blast
  show ?case
  proof (cases "kind t \<noteq> S_END \<and> (\<exists>s0 ss c cs. origin_spans t = Some (s0 # ss) \<and> original t = Some (c # cs))")
    case True
    then show ?thesis using m2 by (intro exI[of _ m2]) (auto simp: Let_def)
  next
    case False
    then show ?thesis using m1
      by (intro exI[of _ m1]) (auto simp: Let_def split: option.splits list.splits)
  qed
qed

lemma tokenize_loop_append:
  "tokenize_loop segs opn (xs @ ys) =
     (case tokenize_loop segs opn xs of
        Inl err \<Rightarrow> Inl err
      | Inr ws \<Rightarrow>
         (case tokenize_loop (fst (tokenize_state segs opn xs)) (snd (tokenize_state segs opn xs)) ys of
            Inl err \<Rightarrow> Inl err
          | Inr ws' \<Rightarrow> Inr (ws @ ws')))"
  by (induction segs opn xs rule: tokenize_loop.induct)
     (auto simp: Let_def emit_def split: option.splits sum.splits)

lemma open_never_closed:
  "(\<And>tok s e. (tok, s, e) \<in> set offs \<Longrightarrow> kind tok \<noteq> S_END \<Longrightarrow>
       (\<exists>orig. original tok = Some orig \<and> \<not> endswith (py_strip orig) (lit ''}''))) \<Longrightarrow>
   tokenize_loop segs True offs = Inr []"
proof (induction offs arbitrary: segs)
  case Nil
  then show ?case by simp
next
  case (Cons x offs)
  obtain tok s e where x: "x = (tok, s, e)" by (cases x)
  have rest: "\<And>segs. tokenize_loop segs True offs = Inr []"
    using Cons.IH Cons.prems by (meson list.set_intros(2))
  show ?case
  proof (cases "kind tok = S_END")
    case True
    then show ?thesis using x rest by simp
  next
    case False
    then obtain orig where "original tok = Some orig" "\<not> endswith (py_strip orig) (lit ''}'')"
      using Cons.prems[of tok s e] x by auto
    then show ?thesis using x False rest by (simp add: Let_def)
  qed
qed

lemma offsets_loop_subset:
  "(tok, s, e) \<in> set (add_token_offsets_loop n toks) \<Longrightarrow> tok \<in> set toks"
  by (induction toks arbitrary: n)
     (auto simp: Let_def split: if_splits option.splits list.splits)

text \<open>
  The offsets of the emitted Words are non-decreasing on every token list.
\<close>

lemma utf8_byte_length_append:
  "utf8_byte_length (xs @ ys) = utf8_byte_length xs + utf8_byte_length ys"
  by (simp add: utf8_byte_length_def utf8_encode_def)

lemma utf8_encode_append: "utf8_encode (xs @ ys) = utf8_encode xs @ utf8_encode ys"
  by (simp add: utf8_encode_def)

lemma utf8_byte_length_take: "utf8_byte_length (take k s) \<le> utf8_byte_length s"
proof -
  have "utf8_byte_length s = utf8_byte_length (take k s) + utf8_byte_length (drop k s)"
    using utf8_byte_length_append[of "take k s" "drop k s"] by simp
  then show ?thesis by simp
qed

lemma span_within_original:
  "utf8_byte_length (take s0 orig) + utf8_byte_length (py_slice orig s0 j) \<le> utf8_byte_length orig"
proof (cases "s0 \<le> j")
  case True
  then have "take s0 orig @ drop s0 (take j orig) = take j orig"
    by (metis append_take_drop_id min.absorb1 take_take)
  then have "utf8_byte_length (take s0 orig) + utf8_byte_length (py_slice orig s0 j)
      = utf8_byte_length (take j orig)"
    using utf8_byte_length_append[of "take s0 orig" "drop s0 (take j orig)"]
    by (simp add: py_slice_def)
  then show ?thesis using utf8_byte_length_take[of j orig] by simp
next
  case False
  then have "py_slice orig s0 j = []" by (simp add: py_slice_def)
  then show ?thesis using utf8_byte_length_take[of s0 orig]
    by (simp add: utf8_byte_length_def utf8_encode_def)
qed

lemma entries_nondecreasing_weaken:
  "entries_nondecreasing lo offs \<Longrightarrow> lo' \<le> lo \<Longrightarrow> entries_nondecreasing lo' offs"
  by (induction lo offs rule: entries_nondecreasing.induct) auto

lemma offsets_loop_nondecreasing:
  "entries_nondecreasing n (add_token_offsets_loop n toks)"
proof (induction toks arbitrary: n)
  case Nil
  show ?case by simp
next
  case (Cons t toks)
  show ?case
  proof (cases "kind t \<noteq> S_END \<and> (\<exists>s0 ss c cs. origin_spans t = Some (s0 # ss) \<and> original t = Some (c # cs))")
    case True
    then obtain s0 ss c cs where sp: "origin_spans t = Some (s0 # ss)" and o: "original t = Some (c # cs)"
      and k: "kind t \<noteq> S_END" by blast
    have "entries_nondecreasing (n + utf8_byte_length (c # cs))
            (add_token_offsets_loop (n + utf8_byte_length (c # cs)) toks)"
      using Cons.IH by blast
    moreover have "n + utf8_byte_length (take s0 (c # cs))
          + utf8_byte_length (py_slice (c # cs) s0 (Suc (last (s0 # ss))))
          \<le> n + utf8_byte_length (c # cs)"
      using span_within_original[of s0 "c # cs" "Suc (last (s0 # ss))"] by simp
    ultimately have "entries_nondecreasing (n + utf8_byte_length (take s0 (c # cs))
          + utf8_byte_length (py_slice (c # cs) s0 (Suc (last (s0 # ss)))))
            (add_token_offsets_loop (n + utf8_byte_length (c # cs)) toks)"
      by (rule entries_nondecreasing_weaken)
    then show ?thesis using sp o k by (simp add: Let_def)
  next
    case False
    then show ?thesis using Cons.IH[of n]
      by (auto simp: Let_def split: option.splits list.splits)
  qed
qed


lemma tokenize_loop_nondecreasing:
  "entries_nondecreasing lo offs \<Longrightarrow> tokenize_loop segs opn offs = Inr ws \<Longrightarrow>
   offsets_nondecreasing lo ws"
proof (induction offs arbitrary: lo segs opn ws)
  case Nil
  then show ?case by simp
next
  case (Cons x offs)
  obtain tok s e where x: "x = (tok, s, e)" by (cases x)
  show ?case
  proof (cases "kind tok = S_END")
    case True
    then show ?thesis using Cons x by simp
  next
    case False
    then have b: "lo \<le> s" "s \<le> e" "entries_nondecreasing e offs"
      using Cons.prems(1) x by simp_all
    have "lo \<le> e" using b by simp
    with b(3) have w: "entries_nondecreasing lo offs"
      by (rule entries_nondecreasing_weaken)
    have skip: "\<And>segs opn ws. tokenize_loop segs opn offs = Inr ws \<Longrightarrow> offsets_nondecreasing lo ws"
      using Cons.IH[OF w] .
    have keep: "\<And>segs opn ws. tokenize_loop segs opn offs = Inr ws \<Longrightarrow> offsets_nondecreasing e ws"
      using Cons.IH[OF b(3)] .
    obtain orig where o: "original tok = Some orig"
      using Cons.prems(2) x False by (cases "original tok") simp_all
    show ?thesis
    proof (cases "(opn \<and> \<not> endswith (py_strip orig) (lit ''}''))
        \<or> (\<not> opn \<and> startswith (py_strip orig) (lit ''{'') \<and> \<not> endswith (py_strip orig) (lit ''}''))")
      case True
      then have "tokenize_loop segs opn (x # offs) = tokenize_loop (segs @ [py_strip orig]) True offs"
        using x False o by (auto simp: Let_def)
      then show ?thesis using Cons.prems(2) skip by simp
    next
      case False
      then obtain sym s' o' where
        "tokenize_loop segs opn (x # offs) = emit (plain_word sym s e) (tokenize_loop s' o' offs)"
        using x \<open>kind tok \<noteq> S_END\<close> o by (cases opn) (auto simp: Let_def)
      then obtain ws' where "tokenize_loop s' o' offs = Inr ws'" "ws = plain_word sym s e # ws'"
        using Cons.prems(2) by (auto simp: emit_def split: sum.splits)
      then show ?thesis using keep b by (simp add: plain_word_def)
    qed
  qed
qed

lemma tokenize_returns: "\<exists>ws. tokenize toks = Inr ws"
proof -
  have "\<And>tok s e. (tok, s, e) \<in> set (add_token_offsets toks) \<Longrightarrow> kind tok \<noteq> S_END
          \<Longrightarrow> original tok \<noteq> None"
    using offsets_entry unfolding add_token_offsets_def by fastforce
  then show ?thesis
    unfolding tokenize_def using tokenize_loop_returns by blast
qed

lemma tokenize_offsets_nondecreasing:
  "\<exists>ws. tokenize toks = Inr ws \<and> offsets_nondecreasing 0 ws"
proof -
  obtain ws where ws: "tokenize toks = Inr ws" using tokenize_returns by blast
  have "entries_nondecreasing 0 (add_token_offsets toks)"
    unfolding add_token_offsets_def by (rule offsets_loop_nondecreasing)
  then have "offsets_nondecreasing 0 ws"
    using ws unfolding tokenize_def by (rule tokenize_loop_nondecreasing)
  with ws show ?thesis by blast
qed

text \<open>
  When the tokens are aligned and none of them opens a brace-delimited span, the input
  sliced at a Word's span is the Word's original symbol, byte for byte.
\<close>

lemma py_slice_middle: "py_slice (X @ Y @ Z) (length X) (length X + length Y) = Y"
  by (simp add: py_slice_def)

lemma py_slice_empty_range: "py_slice B s s = []"
  by (simp add: py_slice_def)

lemma original_split:
  "s0 \<le> j \<Longrightarrow> orig = take s0 orig @ py_slice orig s0 j @ drop j orig"
  by (metis append.assoc append_take_drop_id min.absorb1 py_slice_def take_take)

lemma counted_entry_slice:
  assumes "py_slice orig s0 j = M" "length P = n"
  shows "py_slice (P @ utf8_encode orig @ R)
           (n + utf8_byte_length (take s0 orig))
           (n + utf8_byte_length (take s0 orig) + utf8_byte_length M)
         = utf8_encode M"
proof (cases "s0 \<le> j")
  case True
  have "orig = take s0 orig @ M @ drop j orig"
    using original_split[OF True, of orig] assms(1) by simp
  then have "utf8_encode orig = utf8_encode (take s0 orig) @ utf8_encode M @ utf8_encode (drop j orig)"
    by (metis utf8_encode_append)
  then have "P @ utf8_encode orig @ R
      = (P @ utf8_encode (take s0 orig)) @ utf8_encode M @ (utf8_encode (drop j orig) @ R)"
    by simp
  moreover have "length (P @ utf8_encode (take s0 orig)) = n + utf8_byte_length (take s0 orig)"
    using assms(2) by (simp add: utf8_byte_length_def)
  ultimately show ?thesis
    using py_slice_middle[of "P @ utf8_encode (take s0 orig)" "utf8_encode M"
        "utf8_encode (drop j orig) @ R"]
    by (simp add: utf8_byte_length_def)
next
  case False
  then have "M = []" using assms(1) by (auto simp: py_slice_def)
  then show ?thesis by (simp add: py_slice_empty_range utf8_byte_length_def utf8_encode_def)
qed


lemma offsets_loop_slice:
  assumes "\<forall>t \<in> set toks. token_aligned t" "length P = n"
    and "(tok, s, e) \<in> set (add_token_offsets_loop n toks)" "kind tok \<noteq> S_END"
  shows "py_slice (P @ utf8_encode (concat (map tok_text toks))) s e
           = utf8_encode (py_strip (tok_text tok))"
  using assms
proof (induction toks arbitrary: n P)
  case Nil
  then show ?case by simp
next
  case (Cons t toks)
  have al: "token_aligned t" and rest: "\<forall>t \<in> set toks. token_aligned t"
    using Cons.prems(1) by simp_all
  show ?case
  proof (cases "kind t \<noteq> S_END \<and> (\<exists>s0 ss. origin_spans t = Some (s0 # ss))
        \<and> (\<exists>orig. original t = Some orig \<and> orig \<noteq> [])")
    case True
    then obtain s0 ss orig where sp: "origin_spans t = Some (s0 # ss)"
      and o': "original t = Some orig" "orig \<noteq> []" and k: "kind t \<noteq> S_END" by blast
    then obtain c cs where o: "original t = Some (c # cs)" and orig_def: "orig = c # cs"
      by (cases orig) simp_all
    have tt: "tok_text t = orig" using o by (simp add: tok_text_def orig_def)
    have M: "py_slice orig s0 (Suc (last (s0 # ss))) = py_strip orig"
      using al sp k tt by (simp add: token_aligned_def)
    have buf: "P @ utf8_encode (concat (map tok_text (t # toks)))
        = P @ utf8_encode orig @ utf8_encode (concat (map tok_text toks))"
      using tt by (simp add: utf8_encode_append)
    from Cons.prems(3) sp o k
    consider "tok = t \<and> s = n + utf8_byte_length (take s0 orig)
                \<and> e = n + utf8_byte_length (take s0 orig) + utf8_byte_length (py_strip orig)"
      | "(tok, s, e) \<in> set (add_token_offsets_loop (n + utf8_byte_length orig) toks)"
      using M by (auto simp: Let_def orig_def)
    then show ?thesis
    proof cases
      case 1
      then show ?thesis
        using counted_entry_slice[OF M Cons.prems(2), of "utf8_encode (concat (map tok_text toks))"]
          buf tt by simp
    next
      case 2
      have "length (P @ utf8_encode orig) = n + utf8_byte_length orig"
        using Cons.prems(2) by (simp add: utf8_byte_length_def)
      from Cons.IH[OF rest this 2 Cons.prems(4)] show ?thesis using buf by simp
    qed
  next
    case False
    then have empty: "tok_text t = []"
      using al by (auto simp: token_aligned_def tok_text_def split: option.splits list.splits if_splits)
    have "(tok, s, e) \<in> set (add_token_offsets_loop n toks)"
      using Cons.prems(3,4) False
      by (auto simp: Let_def split: if_splits option.splits list.splits)
    from Cons.IH[OF rest Cons.prems(2) this Cons.prems(4)] show ?thesis
      using empty by simp
  qed
qed

lemma tokenize_loop_plain:
  assumes "\<forall>(tok, s, e) \<in> set offs. \<not> opens_brace tok"
    and "tokenize_loop segs False offs = Inr ws" "w \<in> set ws"
  shows "\<exists>tok s e. (tok, s, e) \<in> set offs \<and> kind tok \<noteq> S_END
           \<and> w = plain_word (py_strip (tok_text tok)) s e"
  using assms
proof (induction offs arbitrary: segs ws)
  case Nil
  then show ?case by simp
next
  case (Cons x offs)
  obtain tok s e where x: "x = (tok, s, e)" by (cases x)
  have rest: "\<forall>(tok, s, e) \<in> set offs. \<not> opens_brace tok" using Cons.prems(1) by auto
  show ?case
  proof (cases "kind tok = S_END")
    case True
    then have "tokenize_loop segs False offs = Inr ws" using Cons.prems(2) x by simp
    from Cons.IH[OF rest this Cons.prems(3)] show ?thesis by auto
  next
    case False
    then obtain orig where o: "original tok = Some orig"
      using Cons.prems(2) x by (cases "original tok") simp_all
    have no: "\<not> (startswith (py_strip orig) (lit ''{'') \<and> \<not> endswith (py_strip orig) (lit ''}''))"
      using Cons.prems(1) x o by (simp add: opens_brace_def tok_text_def)
    then have "tokenize_loop segs False (x # offs)
        = emit (plain_word (py_strip orig) s e) (tokenize_loop segs False offs)"
      using x False o by (auto simp: Let_def)
    then obtain ws' where ws': "tokenize_loop segs False offs = Inr ws'"
        "ws = plain_word (py_strip orig) s e # ws'"
      using Cons.prems(2) by (auto simp: emit_def split: sum.splits)
    show ?thesis
    proof (cases "w = plain_word (py_strip orig) s e")
      case True
      have "(tok, s, e) \<in> set (x # offs)" using x by simp
      moreover have "w = plain_word (py_strip (tok_text tok)) s e"
        using True o by (simp add: tok_text_def)
      ultimately show ?thesis using \<open>kind tok \<noteq> S_END\<close> by blast
    next
      case False
      then have "w \<in> set ws'" using Cons.prems(3) ws'(2) by simp
      from Cons.IH[OF rest ws'(1) this] show ?thesis by auto
    qed
  qed
qed

lemma plain_text_spans_reproduce_symbols:
  assumes "\<forall>t \<in> set toks. token_aligned t \<and> \<not> opens_brace t"
    and "tokenize toks = Inr ws" "w \<in> set ws"
  shows "py_slice (utf8_encode (concat (map tok_text toks))) (start_byte_offset w) (end_byte_offset w)
           = utf8_encode (original_symbol w)"
proof -
  have "\<forall>(tok, s, e) \<in> set (add_token_offsets toks). \<not> opens_brace tok"
    using assms(1) offsets_loop_subset unfolding add_token_offsets_def by fastforce
  then obtain tok s e where m: "(tok, s, e) \<in> set (add_token_offsets toks)" "kind tok \<noteq> S_END"
      and w: "w = plain_word (py_strip (tok_text tok)) s e"
    using tokenize_loop_plain[of "add_token_offsets toks" "[]" ws w] assms(2,3)
    unfolding tokenize_def by blast
  have "py_slice ([] @ utf8_encode (concat (map tok_text toks))) s e
      = utf8_encode (py_strip (tok_text tok))"
    using assms(1) m unfolding add_token_offsets_def
    by (intro offsets_loop_slice[where n = 0]) simp_all
  then show ?thesis using w by (simp add: plain_word_def)
qed

lemma plain_text_example:
  "tokenize [sentence_begin, \<lparr>kind = WORD_TOK, original = Some [222, 97, 240], origin_spans = Some [0, 1, 2]\<rparr>,
             \<lparr>kind = WORD_TOK, original = Some [32, 101, 114], origin_spans = Some [1, 2]\<rparr>,
             sentence_end]
     = Inr [plain_word [222, 97, 240] 0 5, plain_word [101, 114] 6 8]
   \<and> py_slice (utf8_encode [222, 97, 240, 32, 101, 114]) 0 5 = utf8_encode [222, 97, 240]
   \<and> py_slice (utf8_encode [222, 97, 240, 32, 101, 114]) 6 8 = utf8_encode [101, 114]"
  by (simp add: tok_eval)

text \<open>
  A sentence end that carries original text, as at a paragraph break, is skipped before
  its bytes are counted, and the spans after it fall short by its length: in the input
  \<open>A\<close>, two line feeds, \<open>B\<close>, the Word \<open>B\<close> gets the span \<open>[1, 2)\<close>, a line feed.
\<close>

lemma sentence_end_text_shifts_spans:
  "concat (map tok_text [sentence_begin, mk_tok WORD_TOK ''A'' [0],
        \<lparr>kind = S_END, original = Some [10, 10], origin_spans = None\<rparr>,
        sentence_begin, mk_tok WORD_TOK ''B'' [0], sentence_end]) = [65, 10, 10, 66]
   \<and> tokenize [sentence_begin, mk_tok WORD_TOK ''A'' [0],
        \<lparr>kind = S_END, original = Some [10, 10], origin_spans = None\<rparr>,
        sentence_begin, mk_tok WORD_TOK ''B'' [0], sentence_end]
       = Inr [plain_word (lit ''A'') 0 1, plain_word (lit ''B'') 1 2]
   \<and> py_slice (utf8_encode [65, 10, 10, 66]) 1 2 = [10]"
  by (simp add: tok_eval)

text \<open>
  Claim C1, at the input \<open>{a b}\<close>. The offsets are non-decreasing on every input, and
  a Word made from a single token carries that token's span, as shown above. A Word
  joined from the pieces of a brace-delimited span does not: the tokens' original texts
  concatenate to the input, the scanner joins the pieces into the Word \<open>{ab}\<close> and gives
  it the offsets of the closing token alone. The bytes \<open>[3, 5)\<close> of the input are
  \<open>b}\<close>, not the Word's original symbol. The same happens when the braces are tokens of
  their own: the Word \<open>{ab}\<close> gets the span \<open>[4, 5)\<close>, the closing brace.
\<close>

theorem brace_word_offsets_mismatch:
  "concat (map tok_text [sentence_begin, mk_tok UNKNOWN_TOK ''{a'' [0, 1],
        mk_tok UNKNOWN_TOK '' b}'' [1, 2], sentence_end]) = lit ''{a b}''
   \<and> tokenize [sentence_begin, mk_tok UNKNOWN_TOK ''{a'' [0, 1],
        mk_tok UNKNOWN_TOK '' b}'' [1, 2], sentence_end]
       = Inr [plain_word (lit ''{ab}'') 3 5]
   \<and> py_slice (utf8_encode (lit ''{a b}'')) 3 5 = utf8_encode (lit ''b}'')
   \<and> utf8_encode (lit ''b}'') \<noteq> utf8_encode (original_symbol (plain_word (lit ''{ab}'') 3 5))
   \<and> concat (map tok_text [sentence_begin, mk_tok PUNCTUATION_TOK ''{'' [0],
        mk_tok WORD_TOK ''a'' [0], mk_tok WORD_TOK '' b'' [1], mk_tok PUNCTUATION_TOK ''}'' [0],
        sentence_end]) = lit ''{a b}''
   \<and> tokenize [sentence_begin, mk_tok PUNCTUATION_TOK ''{'' [0],
        mk_tok WORD_TOK ''a'' [0], mk_tok WORD_TOK '' b'' [1], mk_tok PUNCTUATION_TOK ''}'' [0],
        sentence_end]
       = Inr [plain_word (lit ''{ab}'') 4 5]
   \<and> py_slice (utf8_encode (lit ''{a b}'')) 4 5 = utf8_encode (lit ''}'')"
  by (simp add: tok_eval)




text \<open>
  Claim C10. When the scanner is outside braces after the tokens \<open>pre\<close>, the next token
  reaches the scanner (it is no sentence end and has a span and an original text), its
  stripped text starts with an opening brace and does not end with a closing brace, and
  no later token's stripped text ends with a closing brace, the output is the output for
  \<open>pre\<close> alone: no Word is emitted for the opening token or for any token after it, and
  no error is raised.
\<close>

theorem unterminated_brace_dropped:
  assumes closed: "snd (tokenize_state [] False (add_token_offsets pre)) = False"
    and t: "kind t \<noteq> S_END" "origin_spans t = Some (s0 # ss)" "original t = Some (c # cs)"
    and opens: "startswith (py_strip (c # cs)) (lit ''{'')"
               "\<not> endswith (py_strip (c # cs)) (lit ''}'')"
    and post: "\<forall>u \<in> set post. \<not> endswith (py_strip (tok_text u)) (lit ''}'')"
  shows "tokenize (pre @ t # post) = tokenize pre"
proof -
  obtain m where m: "add_token_offsets (pre @ t # post)
      = add_token_offsets pre @ add_token_offsets_loop m (t # post)"
    unfolding add_token_offsets_def using offsets_loop_append by blast
  obtain s e m' where te: "add_token_offsets_loop m (t # post)
      = (t, s, e) # add_token_offsets_loop m' post"
    using t by (simp add: Let_def)
  have never: "\<And>segs. tokenize_loop segs True (add_token_offsets_loop m' post) = Inr []"
  proof (rule open_never_closed)
    fix segs tok s e
    assume mem: "(tok, s, e) \<in> set (add_token_offsets_loop m' post)" and k: "kind tok \<noteq> S_END"
    then obtain orig where o: "original tok = Some orig" using offsets_entry by blast
    have "tok \<in> set post" using mem offsets_loop_subset by blast
    then have "\<not> endswith (py_strip (tok_text tok)) (lit ''}'')" using post by blast
    then show "\<exists>orig. original tok = Some orig \<and> \<not> endswith (py_strip orig) (lit ''}'')"
      using o by (simp add: tok_text_def)
  qed
  obtain segs where st: "tokenize_state [] False (add_token_offsets pre) = (segs, False)"
    using closed by (cases "tokenize_state [] False (add_token_offsets pre)") auto
  have "tokenize_loop segs False (add_token_offsets_loop m (t # post)) = Inr []"
    using te t opens never by (simp add: Let_def)
  then show ?thesis
    unfolding tokenize_def m tokenize_loop_append st
    by (simp split: sum.splits)
qed

text \<open>The input \<open>Hi {a b\<close>: only \<open>Hi\<close> is emitted.\<close>

theorem unterminated_brace_dropped_witness:
  "tokenize ([sentence_begin, mk_tok WORD_TOK ''Hi'' [0, 1]] @ mk_tok UNKNOWN_TOK '' {a'' [1, 2]
       # [mk_tok WORD_TOK '' b'' [1], sentence_end])
     = Inr [plain_word (lit ''Hi'') 0 2]"
proof -
  have "tokenize ([sentence_begin, mk_tok WORD_TOK ''Hi'' [0, 1]] @ mk_tok UNKNOWN_TOK '' {a'' [1, 2]
       # [mk_tok WORD_TOK '' b'' [1], sentence_end])
     = tokenize [sentence_begin, mk_tok WORD_TOK ''Hi'' [0, 1]]"
    by (rule unterminated_brace_dropped[where ?s0.0 = 1 and ss = "[2]" and c = 32 and cs = "[123, 97]"])
       (simp_all add: tok_eval)
  then show ?thesis by (simp add: tok_eval)
qed

section \<open>translate\_words\<close>

lemma should_translate_iff: "should_translate w \<longleftrightarrow> spec_translate_condition w"
  by (auto simp: should_translate_def spec_translate_condition_def is_from_ssml_def
        tag_in_skiplist_def ssml_tag_skiplist_def split: option.splits)

lemma translate_words_concat:
  "translate_words translate is_spoken ws lang alphabet
     = concat (map (\<lambda>w. yielded_word translate lang alphabet w
                 # syllable_marker_after is_spoken alphabet (yielded_word translate lang alphabet w)) ws)"
  by (induction ws) (simp_all add: Let_def)

lemma translate_words_map:
  "alphabet \<noteq> XSAMPA_SYLL_STRESS \<Longrightarrow>
   translate_words translate is_spoken ws lang alphabet = map (yielded_word translate lang alphabet) ws"
  by (induction ws) (simp_all add: Let_def syllable_marker_after_def)

lemma yielded_word_spec:
  "yielded_word translate lang alphabet w =
     (if spec_translate_condition w
      then w\<lparr>phone_sequence :=
             concat (map (\<lambda>g2p_w. translate g2p_w lang alphabet)
                         (py_split (space_out_punctuation (symbol w))))\<rparr>
      else w)"
  by (simp add: yielded_word_def should_translate_iff)

text \<open>
  Claim C2. The condition the code computes is the one of the specification: the Word is
  not the sentence separator, and it is not from SSML markup or its tag is not in the
  skip-list, which holds \<open>phoneme\<close> only. The output of \<open>translate_words\<close> is, for each
  Word of its input in order, the Word with its phone sequence replaced by the
  concatenation of the translations of the pieces of its symbol when the condition
  holds, and the Word itself when it fails, followed by the syllable marker if there is
  one. Outside the stress alphabet the phone sequences of the output are, Word by Word,
  the translation where the condition holds and the input's phone sequence where it
  fails.
\<close>

theorem translate_iff_condition:
  "(should_translate w \<longleftrightarrow> spec_translate_condition w)
   \<and> ssml_tag_skiplist = [lit ''phoneme'']
   \<and> translate_words translate is_spoken ws lang alphabet
       = concat (map (\<lambda>word.
            (let word' = (if spec_translate_condition word
                          then word\<lparr>phone_sequence :=
                                 concat (map (\<lambda>g2p_w. translate g2p_w lang alphabet)
                                             (py_split (space_out_punctuation (symbol word))))\<rparr>
                          else word)
             in word' # syllable_marker_after is_spoken alphabet word')) ws)
   \<and> (alphabet \<noteq> XSAMPA_SYLL_STRESS \<longrightarrow>
        map phone_sequence (translate_words translate is_spoken ws lang alphabet)
          = map (\<lambda>word. if spec_translate_condition word
                          then concat (map (\<lambda>g2p_w. translate g2p_w lang alphabet)
                                           (py_split (space_out_punctuation (symbol word))))
                          else phone_sequence word) ws)"
proof -
  have a: "translate_words translate is_spoken ws lang alphabet
       = concat (map (\<lambda>word.
            (let word' = (if spec_translate_condition word
                          then word\<lparr>phone_sequence :=
                                 concat (map (\<lambda>g2p_w. translate g2p_w lang alphabet)
                                             (py_split (space_out_punctuation (symbol word))))\<rparr>
                          else word)
             in word' # syllable_marker_after is_spoken alphabet word')) ws)"
    unfolding translate_words_concat yielded_word_spec Let_def by (rule refl)
  have b: "alphabet \<noteq> XSAMPA_SYLL_STRESS \<Longrightarrow>
        map phone_sequence (translate_words translate is_spoken ws lang alphabet)
          = map (\<lambda>word. if spec_translate_condition word
                          then concat (map (\<lambda>g2p_w. translate g2p_w lang alphabet)
                                           (py_split (space_out_punctuation (symbol word))))
                          else phone_sequence word) ws"
    by (simp add: translate_words_map yielded_word_spec)
  show ?thesis
    using a b should_translate_iff[of w] by (simp add: ssml_tag_skiplist_def)
qed

text \<open>
  A stream of a plain Word, a Word from a \<open>phoneme\<close> tag and the sentence separator: the
  first is translated, the other two keep their phone sequences.
\<close>

theorem translate_iff_condition_witness:
  "spec_translate_condition (plain_word (lit ''ok.'') 0 3)
   \<and> \<not> spec_translate_condition (phoneme_word ''a b'' True [lit ''x''])
   \<and> \<not> spec_translate_condition WORD_SENTENCE_SEPARATOR
   \<and> map phone_sequence (translate_words spell has_letters
        [plain_word (lit ''ok.'') 0 3, phoneme_word ''a b'' True [lit ''x''],
         WORD_SENTENCE_SEPARATOR] (lit ''is'') IPA)
       = [[lit ''o'', lit ''k'', lit ''.''], [lit ''x''], []]"
proof -
  have a: "spec_translate_condition (plain_word (lit ''ok.'') 0 3)"
    by (simp add: spec_translate_condition_def is_from_ssml_def plain_word_def
          WORD_SENTENCE_SEPARATOR_def Word_default_def lit_def)
  have b: "\<not> spec_translate_condition (phoneme_word ''a b'' True [lit ''x''])"
    by (simp add: spec_translate_condition_def is_from_ssml_def phoneme_word_def tag_in_skiplist_def)
  have c: "\<not> spec_translate_condition WORD_SENTENCE_SEPARATOR"
    by (simp add: spec_translate_condition_def)
  have d: "IPA \<noteq> XSAMPA_SYLL_STRESS" by simp
  have "map phone_sequence (translate_words spell has_letters
        [plain_word (lit ''ok.'') 0 3, phoneme_word ''a b'' True [lit ''x''],
         WORD_SENTENCE_SEPARATOR] (lit ''is'') IPA)
       = map (\<lambda>word. if spec_translate_condition word
                          then concat (map (\<lambda>g2p_w. spell g2p_w (lit ''is'') IPA)
                                           (py_split (space_out_punctuation (symbol word))))
                          else phone_sequence word)
           [plain_word (lit ''ok.'') 0 3, phoneme_word ''a b'' True [lit ''x''],
            WORD_SENTENCE_SEPARATOR]"
    using d translate_iff_condition[of "plain_word (lit ''ok.'') 0 3" spell has_letters
        "[plain_word (lit ''ok.'') 0 3, phoneme_word ''a b'' True [lit ''x''],
          WORD_SENTENCE_SEPARATOR]" "lit ''is''" IPA]
    by blast
  also have "\<dots> = [concat (map (\<lambda>g2p_w. spell g2p_w (lit ''is'') IPA)
                             (py_split (space_out_punctuation (symbol (plain_word (lit ''ok.'') 0 3))))),
                   phone_sequence (phoneme_word ''a b'' True [lit ''x'']),
                   phone_sequence WORD_SENTENCE_SEPARATOR]"
    using a b c by simp
  also have "\<dots> = [[lit ''o'', lit ''k'', lit ''.''], [lit ''x''], []]"
    by (simp add: str_eval spell_def plain_word_def phoneme_word_def WORD_SENTENCE_SEPARATOR_def
          Word_default_def)
  finally show ?thesis using a b c by blast
qed

text \<open>
  Claim C9. The output is, for each input Word in order, the Word yielded for it followed
  by the syllable marker if there is one; outside the stress alphabet it is exactly the
  yielded Words. A yielded Word has the original symbol, symbol, byte offsets and SSML
  properties of its input Word, and is the input Word unchanged when the translate
  condition fails.
\<close>

theorem translate_words_frame:
  "translate_words translate is_spoken ws lang alphabet
     = concat (map (\<lambda>w. yielded_word translate lang alphabet w
                 # syllable_marker_after is_spoken alphabet (yielded_word translate lang alphabet w)) ws)
   \<and> (alphabet \<noteq> XSAMPA_SYLL_STRESS \<longrightarrow>
        translate_words translate is_spoken ws lang alphabet
          = map (yielded_word translate lang alphabet) ws)
   \<and> original_symbol (yielded_word translate lang alphabet w) = original_symbol w
   \<and> symbol (yielded_word translate lang alphabet w) = symbol w
   \<and> start_byte_offset (yielded_word translate lang alphabet w) = start_byte_offset w
   \<and> end_byte_offset (yielded_word translate lang alphabet w) = end_byte_offset w
   \<and> ssml_props (yielded_word translate lang alphabet w) = ssml_props w
   \<and> (\<not> should_translate w \<longrightarrow> yielded_word translate lang alphabet w = w)"
  using translate_words_concat[of translate is_spoken ws lang alphabet]
    translate_words_map[of alphabet translate is_spoken ws lang]
  by (simp add: yielded_word_def)

theorem translate_words_frame_witness:
  "translate_words spell has_letters
       [plain_word (lit ''ok'') 0 2, phoneme_word ''a b'' True [lit ''x''], WORD_SENTENCE_SEPARATOR]
       (lit ''is'') IPA
     = [(plain_word (lit ''ok'') 0 2)\<lparr>phone_sequence := [lit ''o'', lit ''k'']\<rparr>,
        phoneme_word ''a b'' True [lit ''x''], WORD_SENTENCE_SEPARATOR]
   \<and> \<not> should_translate (phoneme_word ''a b'' True [lit ''x''])
   \<and> yielded_word spell (lit ''is'') IPA (phoneme_word ''a b'' True [lit ''x''])
       = phoneme_word ''a b'' True [lit ''x'']"
proof -
  have a: "\<not> should_translate (phoneme_word ''a b'' True [lit ''x''])"
    by (simp add: word_eval)
  have b: "IPA \<noteq> XSAMPA_SYLL_STRESS" by simp
  show ?thesis
    using a b
      translate_words_frame[of spell has_letters
        "[plain_word (lit ''ok'') 0 2, phoneme_word ''a b'' True [lit ''x''], WORD_SENTENCE_SEPARATOR]"
        "lit ''is''" IPA "phoneme_word ''a b'' True [lit ''x'']"]
    by (simp add: word_eval str_eval spell_def)
qed

section \<open>ComposedTranslator\<close>

lemma composed_loop_find:
  "composed_translate_loop phone ts text lang alphabet =
     (case find (\<lambda>t. t text lang alphabet \<noteq> []) ts of
        None \<Rightarrow> (if ts = [] then phone else [])
      | Some t \<Rightarrow> t text lang alphabet)"
  by (induction ts arbitrary: phone) (auto simp: Let_def split: option.splits)

text \<open>
  Claim C4. \<open>ComposedTranslator.translate\<close> returns the result of the first translator,
  in construction order, whose result is not empty, and the empty sequence when there is
  none; with \<open>T1\<close> empty and \<open>T2\<close> returning two phones on a word, the composition of the
  two returns those two phones. Construction without translators is a ValueError.
\<close>

theorem composed_first_match_wins:
  "composed_translate ts text lang alphabet =
     (case find (\<lambda>t. t text lang alphabet \<noteq> []) ts of
        None \<Rightarrow> [] | Some t \<Rightarrow> t text lang alphabet)
   \<and> (T1 text lang alphabet = [] \<and> T2 text lang alphabet = [p1, p2] \<longrightarrow>
        composed_translate [T1, T2] text lang alphabet = [p1, p2])
   \<and> ((\<forall>t \<in> set ts. t text lang alphabet = []) \<longrightarrow> composed_translate ts text lang alphabet = [])
   \<and> ComposedTranslator_init [] = Inl ValueError
   \<and> ComposedTranslator_init (T1 # ts) = Inr (T1 # ts)"
proof -
  have a: "composed_translate ts text lang alphabet =
     (case find (\<lambda>t. t text lang alphabet \<noteq> []) ts of
        None \<Rightarrow> [] | Some t \<Rightarrow> t text lang alphabet)"
    unfolding composed_translate_def composed_loop_find by (simp split: option.splits)
  have b: "(\<forall>t \<in> set ts. t text lang alphabet = []) \<longrightarrow> find (\<lambda>t. t text lang alphabet \<noteq> []) ts = None"
    by (simp add: find_None_iff)
  show ?thesis using a b
    by (simp add: composed_translate_def ComposedTranslator_init_def Let_def)
qed

theorem composed_first_match_wins_witness:
  "silent (lit ''ok'') (lit ''is'') IPA = []
   \<and> spell (lit ''ok'') (lit ''is'') IPA = [lit ''o'', lit ''k'']
   \<and> composed_translate [silent, spell] (lit ''ok'') (lit ''is'') IPA = [lit ''o'', lit ''k'']
   \<and> composed_translate [silent, silent] (lit ''ok'') (lit ''is'') IPA = []"
proof -
  have a: "silent (lit ''ok'') (lit ''is'') IPA = []" by (simp add: silent_def)
  have b: "spell (lit ''ok'') (lit ''is'') IPA = [lit ''o'', lit ''k'']"
    by (simp add: spell_def lit_def)
  have c: "\<forall>t \<in> set [silent, silent]. t (lit ''ok'') (lit ''is'') IPA = []"
    by (simp add: silent_def)
  show ?thesis
    using a b c
      composed_first_match_wins[of "[silent, silent]" "lit ''ok''" "lit ''is''" IPA silent spell
        "lit ''o''" "lit ''k''"]
    by simp
qed

section \<open>Lexicon translator\<close>

text \<open>
  Claim C5. The result is the alphabet conversion of the lookup of the specification (the
  word verbatim, then lowercased), applied to what was looked up and not to the key: no
  conversion for IPA, IPA to X-SAMPA for X-SAMPA, and the stress conversion of that for
  the stress alphabet. A word absent verbatim and present in lowercase is found. On a
  total miss the lookup is empty, the IPA result is empty, and the result in every
  alphabet is empty when the converters send the empty sequence to the empty sequence.
\<close>

theorem lexicon_lookup_then_convert:
  "lexicon_translate cv lx w lang IPA = spec_lexicon_lookup cv lx w
   \<and> lexicon_translate cv lx w lang XSAMPA = convert_ipa_to_xsampa cv (spec_lexicon_lookup cv lx w)
   \<and> lexicon_translate cv lx w lang XSAMPA_SYLL_STRESS
       = convert_xsampa_to_xsampa_with_stress cv (convert_ipa_to_xsampa cv (spec_lexicon_lookup cv lx w)) w
   \<and> (lx w = None \<and> lx (lower cv w) = Some phones \<longrightarrow> spec_lexicon_lookup cv lx w = phones)
   \<and> (lx w = None \<and> lx (lower cv w) = None \<longrightarrow>
        spec_lexicon_lookup cv lx w = [] \<and> lexicon_translate cv lx w lang IPA = [])
   \<and> (lx w = None \<and> lx (lower cv w) = None \<and> convert_ipa_to_xsampa cv [] = []
        \<and> convert_xsampa_to_xsampa_with_stress cv [] w = [] \<longrightarrow>
        lexicon_translate cv lx w lang alphabet = [])"
  by (cases alphabet)
     (auto simp: lexicon_translate_def spec_lexicon_lookup_def lexicon_get_def Let_def
           split: option.splits list.splits)

theorem lexicon_lookup_then_convert_witness:
  "demo_lexicon (lit ''Word'') = None
   \<and> demo_lexicon (lower plain_converters (lit ''Word'')) = Some [lit ''w'', lit ''o'', lit ''r'', lit ''d'']
   \<and> lexicon_translate plain_converters demo_lexicon (lit ''Word'') (lit ''is'') IPA
       = [lit ''w'', lit ''o'', lit ''r'', lit ''d'']
   \<and> demo_lexicon (lit ''Xyz'') = None \<and> demo_lexicon (lower plain_converters (lit ''Xyz'')) = None
   \<and> lexicon_translate plain_converters demo_lexicon (lit ''Xyz'') (lit ''is'') XSAMPA = []"
proof -
  have a: "demo_lexicon (lit ''Word'') = None
     \<and> demo_lexicon (lower plain_converters (lit ''Word'')) = Some [lit ''w'', lit ''o'', lit ''r'', lit ''d'']"
    by (simp add: demo_lexicon_def plain_converters_def ascii_lower_def lit_def)
  have b: "demo_lexicon (lit ''Xyz'') = None \<and> demo_lexicon (lower plain_converters (lit ''Xyz'')) = None
     \<and> convert_ipa_to_xsampa plain_converters [] = []
     \<and> convert_xsampa_to_xsampa_with_stress plain_converters [] (lit ''Xyz'') = []"
    by (simp add: demo_lexicon_def plain_converters_def ascii_lower_def lit_def)
  show ?thesis
    using a b
      lexicon_lookup_then_convert[of plain_converters demo_lexicon "lit ''Word''" "lit ''is''"
        "[lit ''w'', lit ''o'', lit ''r'', lit ''d'']" IPA]
      lexicon_lookup_then_convert[of plain_converters demo_lexicon "lit ''Xyz''" "lit ''is''"
        "[]" XSAMPA]
    by simp
qed

section \<open>IceG2PTranslator: the syllable symbol\<close>

text \<open>
  Claim C6, as amended. For a target alphabet other than the stress alphabet, whenever
  \<open>_translate\<close> returns a phone sequence, the transcriber's syllable symbol afterwards
  is the one before the call, and when the text is not blank the transcribe call was made
  on the transcriber with the empty syllable symbol.
\<close>

theorem syllab_symbol_restored_on_return:
  assumes "alphabet \<noteq> XSAMPA_SYLL_STRESS"
    and "fst (ice_translate transcribe cv tr text lang alphabet) = Inr phones"
  shows "syllab_symbol (snd (ice_translate transcribe cv tr text lang alphabet)) = syllab_symbol tr
   \<and> (py_strip (remove_punctuation text) \<noteq> [] \<longrightarrow>
        (\<exists>out tr2. transcribe (tr\<lparr>syllab_symbol := []\<rparr>) (lower cv (remove_punctuation text))
                     = (Inr out, tr2)
           \<and> ice_translate transcribe cv tr text lang alphabet
               = (Inr (ice_phone_seq cv alphabet out), tr2\<lparr>syllab_symbol := syllab_symbol tr\<rparr>)))"
  using assms
  by (auto simp: ice_translate_def Let_def split: prod.splits sum.splits if_splits)

theorem syllab_symbol_restored_on_return_witness:
  "fst (ice_translate echo_transcribe plain_converters IceG2PTranslator_init (lit ''Ab'') (lit ''is'') IPA)
     = Inr [lit ''ab'']
   \<and> syllab_symbol (snd (ice_translate echo_transcribe plain_converters IceG2PTranslator_init
        (lit ''Ab'') (lit ''is'') IPA)) = lit ''.''"
proof -
  have a: "IPA \<noteq> XSAMPA_SYLL_STRESS" by simp
  have b: "fst (ice_translate echo_transcribe plain_converters IceG2PTranslator_init (lit ''Ab'')
      (lit ''is'') IPA) = Inr [lit ''ab'']"
    by (simp add: ice_eval)
  show ?thesis
    using b syllab_symbol_restored_on_return[OF a b]
    by (simp add: IceG2PTranslator_init_def)
qed

text \<open>
  Claim C6 as stated fails: when the transcribe call raises, the exception leaves
  \<open>_translate\<close> and the syllable symbol stays empty.
\<close>

theorem syllab_symbol_not_restored_on_raise:
  "ice_translate failing_transcribe plain_converters IceG2PTranslator_init (lit ''Ab'') (lit ''is'') IPA
     = (Inl ExternalError, IceG2PTranslator_init\<lparr>syllab_symbol := []\<rparr>)
   \<and> syllab_symbol IceG2PTranslator_init = lit ''.''
   \<and> syllab_symbol (snd (ice_translate failing_transcribe plain_converters IceG2PTranslator_init
        (lit ''Ab'') (lit ''is'') IPA)) \<noteq> syllab_symbol IceG2PTranslator_init"
  by (simp add: ice_eval)

section \<open>Remote normalization: multi-word phoneme tags\<close>

text \<open>
  At a spoken token whose parsed Word is a multi-word \<open>phoneme\<close> tag, the loop emits a
  Word with the parsed Word's original text and goes on after exactly one further
  service token, however many pieces the text has.
\<close>

lemma multi_phoneme_skips_one:
  assumes "text_is_ssml" "is_spoken (Word_default\<lparr>original_symbol := original0\<rparr>)"
    and "p_idx st < length parsed_text"
    and "ssml_props (parsed_text ! p_idx st) = Some p" "tag_type p = lit ''phoneme''" "is_multi p"
    and "py_split (original_symbol (parsed_text ! p_idx st)) \<noteq> []"
  shows "\<exists>word st'. original_symbol word = original_symbol (parsed_text ! p_idx st)
     \<and> p_idx st' = p_idx st + 1
     \<and> normalize_sentence cw is_spoken text_is_ssml parsed_text st
          ((original0, normalized) # skipped # rest)
        = (word # fst (normalize_sentence cw is_spoken text_is_ssml parsed_text st' rest),
           snd (normalize_sentence cw is_spoken text_is_ssml parsed_text st' rest))"
proof -
  obtain nc nb where cw: "cw (text_view st) text_is_ssml = (nc, nb)"
    by (cases "cw (text_view st) text_is_ssml")
  define pw where "pw = parsed_text ! p_idx st"
  define word where "word = \<lparr>original_symbol = original_symbol pw, symbol = normalized,
      phone_sequence = phone_sequence pw, start_byte_offset = n_bytes_consumed st + nb,
      end_byte_offset = n_bytes_consumed st + nb + utf8_byte_length (original_symbol pw),
      ssml_props = None\<rparr>"
  define st' where "st' = \<lparr>n_bytes_consumed = n_bytes_consumed st + nb + utf8_byte_length (original_symbol pw),
      text_view = drop (nc + length (original_symbol pw)) (text_view st),
      p_idx = p_idx st + 1\<rparr>"
  have "normalize_sentence cw is_spoken text_is_ssml parsed_text st
          ((original0, normalized) # skipped # rest)
        = (word # fst (normalize_sentence cw is_spoken text_is_ssml parsed_text st' rest),
           snd (normalize_sentence cw is_spoken text_is_ssml parsed_text st' rest))"
    using assms cw by (simp add: Let_def pw_def word_def st'_def split: prod.splits)
  moreover have "original_symbol word = original_symbol (parsed_text ! p_idx st)"
    by (simp add: word_def pw_def)
  moreover have "p_idx st' = p_idx st + 1" by (simp add: st'_def)
  ultimately show ?thesis by blast
qed

text \<open>
  With two pieces the skipped token is the second piece and the streams stay aligned:
  the tag \<open>a b\<close> followed by the word \<open>d\<close>, the service returning \<open>a\<close>, \<open>b\<close>, \<open>d\<close>.
\<close>

lemma multi_phoneme_two_pieces_aligned:
  "grammatek_normalize leading_whitespace has_letters (lit ''a b d'') True (lit ''a b d'')
       [phoneme_word ''a b'' True [lit ''x'', lit ''y''], speak_word ''d'']
       [[(lit ''a'', lit ''a''), (lit ''b'', lit ''b''), (lit ''d'', lit ''d'')]]
     = ([\<lparr>original_symbol = lit ''a b'', symbol = lit ''a'',
          phone_sequence = [lit ''x'', lit ''y''],
          start_byte_offset = 0, end_byte_offset = 3, ssml_props = None\<rparr>,
         \<lparr>original_symbol = lit ''d'', symbol = lit ''d'', phone_sequence = [],
          start_byte_offset = 4, end_byte_offset = 5, ssml_props = None\<rparr>,
         WORD_SENTENCE_SEPARATOR],
        Inr \<lparr>n_bytes_consumed = 5, text_view = [], p_idx = 2\<rparr>)"
  by (simp add: norm_eval)

text \<open>
  Claim C7, at a \<open>phoneme\<close> tag with the three pieces \<open>a b c\<close> followed by the word
  \<open>d\<close>, the service returning the tokens \<open>a\<close>, \<open>b\<close>, \<open>c\<close>, \<open>d\<close>. The Word \<open>a b c\<close> is
  emitted with the tag's phones; one token, \<open>b\<close>, is skipped; the token \<open>c\<close> is then
  emitted as a Word of its own, aligned with the parsed Word of \<open>d\<close>, and at \<open>d\<close> the
  cursor is past the parsed Words and indexing raises IndexError.
\<close>

theorem multi_phoneme_three_pieces_desync:
  "length (py_split (lit ''a b c'')) = 3
   \<and> grammatek_normalize leading_whitespace has_letters (lit ''a b c d'') True (lit ''a b c d'')
       abc_parsed [abc_pairs]
     = ([\<lparr>original_symbol = lit ''a b c'', symbol = lit ''a'',
          phone_sequence = [lit ''x'', lit ''y'', lit ''z''],
          start_byte_offset = 0, end_byte_offset = 5, ssml_props = None\<rparr>,
         \<lparr>original_symbol = lit ''c'', symbol = lit ''c'', phone_sequence = [],
          start_byte_offset = 6, end_byte_offset = 7, ssml_props = None\<rparr>],
        Inl IndexError)"
  by (simp add: norm_eval)

end
